theory Spec2Isabelle
  imports Main "HOL-Library.Word" "HOL-Library.Char_ord" "HOL-Library.List_Lexorder"
    "HOL-Library.Product_Lexorder"
begin

unbundle bit_operations_syntax

section \<open>Machine types and errors\<close>

text \<open>
  \<open>size_t\<close> is the 64-bit unsigned size word of an LP64 platform: \<open>+\<close>, \<open>-\<close> and
  \<open>*\<close> wrap around, \<open>div\<close> is unsigned division. A raw pointer is an address,
  \<open>nullptr\<close> being address 0.
\<close>

type_synonym size_t = "64 word"
type_synonym ptr = "64 word"

definition nullptr :: ptr where
  "nullptr = 0"

text \<open>
  What C++ leaves undefined, or reports by throwing, is an error value of the model.
\<close>

datatype error =
    DivisionByZero
  | NullDereference
  | UninitialisedRead
  | UseAfterFree
  | BadFunctionCall

section \<open>Overflow-safe array sizing (allocator.h, lines 160-162 and 223-242)\<close>

text \<open>\<open>std::numeric_limits<size_t>::digits\<close> and \<open>std::numeric_limits<size_t>::max()\<close>.\<close>

definition size_t_digits :: size_t where
  "size_t_digits = 64"

definition size_t_max :: size_t where
  "size_t_max = - 1"

text \<open>
  The cell behind the \<open>size_t* out\<close> parameter is a \<open>size_t option\<close>: \<open>None\<close> is a
  variable that was declared without an initialiser (\<open>size_t len;\<close> in \<open>AllocArray\<close>).
  The function returns its \<open>bool\<close> together with the content of the cell afterwards.
  \<open>&&\<close> evaluates its right operand only when the left one holds, so the first test
  divides by \<open>nmemb\<close> without having compared it with 0; the second test compares first.
\<close>

definition CalcMemSizeForArrayWithAlignment ::
    "size_t \<Rightarrow> size_t \<Rightarrow> size_t \<Rightarrow> size_t option \<Rightarrow> error + (bool \<times> size_t option)" where
  "CalcMemSizeForArrayWithAlignment alignment nmemb size' out =
     (let max_allowed = push_bit (unat (drop_bit 1 size_t_digits)) (1 :: size_t) - alignment;
          max_size = size_t_max - alignment;
          alignment_mask = alignment - 1
      in if nmemb \<ge> max_allowed \<and> nmemb = 0 then Inl DivisionByZero
         else if nmemb \<ge> max_allowed \<and> max_size div nmemb < size' then Inr (False, out)
         else if size' \<ge> max_allowed \<and> nmemb > 0 \<and> max_size div nmemb < size'
           then Inr (False, out)
         else if alignment = 0 then Inr (True, Some (size' * nmemb))
         else Inr (True, Some ((size' * nmemb + alignment_mask) AND NOT alignment_mask)))"

definition CalcMemSizeForArray ::
    "size_t \<Rightarrow> size_t \<Rightarrow> size_t option \<Rightarrow> error + (bool \<times> size_t option)" where
  "CalcMemSizeForArray nmemb size' out = CalcMemSizeForArrayWithAlignment 0 nmemb size' out"

text \<open>
  The specification's reading of the result: the product of the two operands as a
  natural number, rounded up to the next multiple of the alignment, alignment 0 meaning
  no rounding.
\<close>

definition round_up :: "nat \<Rightarrow> nat \<Rightarrow> nat" where
  "round_up p a = (if a = 0 then p else ((p + a - 1) div a) * a)"

definition is_power_of_two :: "size_t \<Rightarrow> bool" where
  "is_power_of_two a = (a \<in> (\<lambda>k. push_bit k 1) ` {0 ..< 64})"

text \<open>The value the last two branches write to the cell.\<close>

definition calc_value :: "size_t \<Rightarrow> size_t \<Rightarrow> size_t \<Rightarrow> size_t" where
  "calc_value a n s = (if a = 0 then s * n else (s * n + (a - 1)) AND NOT (a - 1))"

section \<open>OrtDevice (allocator.h, lines 19-81)\<close>

text \<open>
  \<open>DeviceType\<close> and \<open>MemoryType\<close> are \<open>int8_t\<close>, \<open>DeviceId\<close> is \<open>int16_t\<close>.
\<close>

record OrtDevice =
  device_type :: "8 word"
  memory_type :: "8 word"
  device_id :: "16 word"

definition CPU :: "8 word" where "CPU = 0"
definition GPU :: "8 word" where "GPU = 1"
definition FPGA :: "8 word" where "FPGA = 2"
definition MemType_DEFAULT :: "8 word" where "MemType_DEFAULT = 0"
definition MemType_CUDA_PINNED :: "8 word" where "MemType_CUDA_PINNED = 1"

definition OrtDevice_default :: OrtDevice where
  "OrtDevice_default = \<lparr>device_type = CPU, memory_type = MemType_DEFAULT, device_id = 0\<rparr>"

definition Type :: "OrtDevice \<Rightarrow> 8 word" where
  "Type d = device_type d"

definition MemType :: "OrtDevice \<Rightarrow> 8 word" where
  "MemType d = memory_type d"

definition Id :: "OrtDevice \<Rightarrow> 16 word" where
  "Id d = device_id d"

text \<open>
  \<open>==\<close> on \<open>int8_t\<close> and \<open>int16_t\<close> operands compares them after promotion to
  \<open>int\<close>, that is by their signed values.
\<close>

definition OrtDevice_eq :: "OrtDevice \<Rightarrow> OrtDevice \<Rightarrow> bool" where
  "OrtDevice_eq left other =
     (sint (Id left) = sint (Id other) \<and> sint (MemType left) = sint (MemType other)
      \<and> sint (Type left) = sint (Type other))"

definition OrtDevice_neq :: "OrtDevice \<Rightarrow> OrtDevice \<Rightarrow> bool" where
  "OrtDevice_neq left other = (\<not> OrtDevice_eq left other)"

subsection \<open>Stream insertion\<close>

text \<open>
  A \<open>std::ostringstream\<close> is the text written so far. Inserting an \<open>int\<close> (or a
  \<open>short\<close>, or an unscoped enumeration, which converts to \<open>int\<close>) writes its decimal
  digits, with a leading minus sign when negative.
\<close>

type_synonym ostringstream = string

definition digit_char :: "nat \<Rightarrow> char" where
  "digit_char d = char_of (48 + d)"

fun dec_digits :: "nat \<Rightarrow> string" where
  "dec_digits n = (if n < 10 then [digit_char n] else dec_digits (n div 10) @ [digit_char (n mod 10)])"

declare dec_digits.simps [simp del]

definition show_int :: "int \<Rightarrow> string" where
  "show_int i = (if i < 0 then CHR ''-'' # dec_digits (nat (- i)) else dec_digits (nat i))"

text \<open>
  Reading a decimal numeral back, to state that the digits written denote the number.
\<close>

definition digit_value :: "char \<Rightarrow> nat" where
  "digit_value c = of_char c - 48"

definition dec_value :: "string \<Rightarrow> nat" where
  "dec_value s = foldl (\<lambda>acc c. 10 * acc + digit_value c) 0 s"

definition read_int :: "string \<Rightarrow> int" where
  "read_int s =
     (case s of
        [] \<Rightarrow> 0
      | c # cs \<Rightarrow> if c = CHR ''-'' then - int (dec_value cs) else int (dec_value s))"

definition put_string :: "string \<Rightarrow> ostringstream \<Rightarrow> ostringstream" where
  "put_string s ostr = ostr @ s"

definition put_int :: "int \<Rightarrow> ostringstream \<Rightarrow> ostringstream" where
  "put_int i ostr = ostr @ show_int i"

text \<open>The chain \<open>ostr << a << b << ...\<close> applies the insertions from left to right.\<close>

definition insert_all :: "(ostringstream \<Rightarrow> ostringstream) list \<Rightarrow> ostringstream \<Rightarrow> ostringstream" where
  "insert_all ins ostr = fold (\<lambda>f acc. f acc) ins ostr"

definition OrtDevice_ToString :: "OrtDevice \<Rightarrow> string" where
  "OrtDevice_ToString d =
     insert_all
       [put_string ''Device: ['',
        put_string '' type:'', put_int (sint (device_type d)),
        put_string '' memory_type:'', put_int (sint (memory_type d)),
        put_string '' device_id:'', put_int (sint (device_id d)),
        put_string '']''] []"

section \<open>OrtMemoryInfo (allocator.h, lines 83-131)\<close>

text \<open>
  \<open>name\<close> is a \<open>const char*\<close>: \<open>None\<close> is the null pointer, \<open>Some s\<close> points to the
  characters \<open>s\<close> followed by the terminating NUL. \<open>id\<close> is an \<open>int\<close>. The
  enumerations \<open>OrtMemType\<close> and \<open>OrtAllocatorType\<close> are declared in
  \<open>onnxruntime_c_api.h\<close>; the code only compares and prints them, which it does on
  their \<open>int\<close> values, so the two fields hold those values.
\<close>

record OrtMemoryInfo =
  name :: "string option"
  id' :: "32 word"
  mem_type :: "32 word"
  type' :: "32 word"
  device :: OrtDevice



text \<open>
  \<open>strcmp\<close> walks both arrays while the characters agree and are not NUL; the sign of
  its result is that of the difference of the first two characters that differ, read as
  \<open>unsigned char\<close>. The model returns that difference; the code looks at the sign only.
  The end of the list is the terminating NUL.
\<close>

fun strcmp :: "string \<Rightarrow> string \<Rightarrow> int" where
  "strcmp [] [] = 0"
| "strcmp [] (y # ys) = - int (of_char y)"
| "strcmp (x # xs) [] = int (of_char x)"
| "strcmp (x # xs) (y # ys) =
     (if x \<noteq> y then int (of_char x) - int (of_char y)
      else if x = CHR 0x00 then 0
      else strcmp xs ys)"

definition OrtMemoryInfo_less :: "OrtMemoryInfo \<Rightarrow> OrtMemoryInfo \<Rightarrow> error + bool" where
  "OrtMemoryInfo_less this other =
     (if type' this \<noteq> type' other then Inr (type' this <s type' other)
      else if mem_type this \<noteq> mem_type other then Inr (mem_type this <s mem_type other)
      else if id' this \<noteq> id' other then Inr (id' this <s id' other)
      else case (name this, name other) of
             (Some s, Some t) \<Rightarrow> Inr (strcmp s t < 0)
           | _ \<Rightarrow> Inl NullDereference)"

definition OrtMemoryInfo_eq :: "OrtMemoryInfo \<Rightarrow> OrtMemoryInfo \<Rightarrow> error + bool" where
  "OrtMemoryInfo_eq left other =
     (if mem_type left = mem_type other \<and> type' left = type' other \<and> id' left = id' other
      then case (name left, name other) of
             (Some s, Some t) \<Rightarrow> Inr (strcmp s t = 0)
           | _ \<Rightarrow> Inl NullDereference
      else Inr False)"

text \<open>The characters a C string holds: those before its first NUL.\<close>

definition c_str :: "string \<Rightarrow> string" where
  "c_str s = takeWhile (\<lambda>c. c \<noteq> CHR 0x00) s"

definition OrtMemoryInfo_ToString :: "OrtMemoryInfo \<Rightarrow> error + string" where
  "OrtMemoryInfo_ToString m =
     (case name m of
        None \<Rightarrow> Inl NullDereference
      | Some s \<Rightarrow>
          Inr (insert_all
            [put_string ''OrtMemoryInfo: ['',
             put_string '' name:'', put_string (c_str s),
             put_string '' id:'', put_int (sint (id' m)),
             put_string '' mem_type:'', put_int (sint (mem_type m)),
             put_string '' type:'', put_int (sint (type' m)),
             put_string '']''] []))"

text \<open>
  The ordering in the specification's words: compare the allocator-strategy tag, then
  the memory-class tag, then the numeric id, then the name lexicographically, the first
  field that differs deciding. This is the lexicographic order on the tuple of the four
  fields (characters ordered by their byte value).
\<close>

definition order_key :: "OrtMemoryInfo \<Rightarrow> int \<times> int \<times> int \<times> string" where
  "order_key m = (sint (type' m), sint (mem_type m), sint (id' m), c_str (the (name m)))"

definition spec_less :: "OrtMemoryInfo \<Rightarrow> OrtMemoryInfo \<Rightarrow> bool" where
  "spec_less a b = (order_key a < order_key b)"

definition spec_eq :: "OrtMemoryInfo \<Rightarrow> OrtMemoryInfo \<Rightarrow> bool" where
  "spec_eq a b = (order_key a = order_key b)"

section \<open>IAllocator (allocator.h, lines 148-221)\<close>

text \<open>
  \<open>Alloc\<close> and \<open>Free\<close> are pure virtual: an allocator instance carries its own
  implementations of the two, acting on the instance's private data of type \<open>'s\<close>.
  Instances live in a store, each under its address and together with the use count of
  the \<open>std::shared_ptr\<close> control block that owns it. Every virtual call and every
  destruction of an instance is appended to a trace, so that "was never invoked" and
  "exactly once" are statements about that trace.
\<close>

datatype event =
    Alloc_called nat size_t
  | Free_called nat ptr
  | Destroyed nat

record 's IAllocator =
  Alloc :: "size_t \<Rightarrow> 's \<Rightarrow> ptr \<times> 's"
  Free :: "ptr \<Rightarrow> 's \<Rightarrow> 's"
  private_data :: 's

record 's control_block =
  use_count :: nat
  object :: "'s IAllocator"

record 's world =
  store :: "nat \<rightharpoonup> 's control_block"
  trace :: "event list"

text \<open>A virtual call through a pointer to an instance that has been destroyed is undefined.\<close>

definition call_Alloc :: "nat \<Rightarrow> size_t \<Rightarrow> 's world \<Rightarrow> error + (ptr \<times> 's world)" where
  "call_Alloc a n w =
     (case store w a of
        None \<Rightarrow> Inl UseAfterFree
      | Some cb \<Rightarrow>
          (case Alloc (object cb) n (private_data (object cb)) of
             (p, s) \<Rightarrow>
               Inr (p, w\<lparr>store := (store w)(a \<mapsto> cb\<lparr>object := (object cb)\<lparr>private_data := s\<rparr>\<rparr>),
                         trace := trace w @ [Alloc_called a n]\<rparr>)))"

definition call_Free :: "nat \<Rightarrow> ptr \<Rightarrow> 's world \<Rightarrow> error + 's world" where
  "call_Free a p w =
     (case store w a of
        None \<Rightarrow> Inl UseAfterFree
      | Some cb \<Rightarrow>
          Inr (w\<lparr>store := (store w)(a \<mapsto> cb\<lparr>object :=
                     (object cb)\<lparr>private_data := Free (object cb) p (private_data (object cb))\<rparr>\<rparr>),
                 trace := trace w @ [Free_called a p]\<rparr>))"

subsection \<open>\<open>std::shared_ptr\<close> and \<open>std::unique_ptr\<close>\<close>

text \<open>
  A \<open>std::shared_ptr<IAllocator>\<close> is \<open>None\<close> when empty and \<open>Some a\<close> when it shares
  ownership of the instance at address \<open>a\<close>. Copying one adds 1 to the use count;
  destroying one subtracts 1, and the instance is destroyed with the last owner.
\<close>

definition shared_ptr_copy :: "nat option \<Rightarrow> 's world \<Rightarrow> error + 's world" where
  "shared_ptr_copy sp w =
     (case sp of
        None \<Rightarrow> Inr w
      | Some a \<Rightarrow>
          (case store w a of
             None \<Rightarrow> Inl UseAfterFree
           | Some cb \<Rightarrow> Inr (w\<lparr>store := (store w)(a \<mapsto> cb\<lparr>use_count := use_count cb + 1\<rparr>)\<rparr>)))"

definition shared_ptr_destroy :: "nat option \<Rightarrow> 's world \<Rightarrow> error + 's world" where
  "shared_ptr_destroy sp w =
     (case sp of
        None \<Rightarrow> Inr w
      | Some a \<Rightarrow>
          (case store w a of
             None \<Rightarrow> Inl UseAfterFree
           | Some cb \<Rightarrow>
               if use_count cb \<le> 1
               then Inr (w\<lparr>store := (store w)(a := None), trace := trace w @ [Destroyed a]\<rparr>)
               else Inr (w\<lparr>store := (store w)(a \<mapsto> cb\<lparr>use_count := use_count cb - 1\<rparr>)\<rparr>)))"

text \<open>Destroying \<open>k\<close> owners of the same instance, one after the other.\<close>

fun drop_owners :: "nat \<Rightarrow> nat \<Rightarrow> 's world \<Rightarrow> error + 's world" where
  "drop_owners a 0 w = Inr w"
| "drop_owners a (Suc k) w =
     (case shared_ptr_destroy (Some a) w of Inl e \<Rightarrow> Inl e | Inr w1 \<Rightarrow> drop_owners a k w1)"

text \<open>
  \<open>IAllocatorUniquePtr<T>\<close> is \<open>std::unique_ptr<T, std::function<void(T*)>>\<close>: the
  wrapped pointer and the deleter. The only deleter the code ever stores is the lambda
  of line 219, which holds a copy of the \<open>allocator\<close> shared pointer, so a deleter is
  \<open>Some a\<close> for that lambda capturing \<open>a\<close> and \<open>None\<close> for the empty
  \<open>std::function\<close> of a handle made from \<open>nullptr\<close>.
\<close>

record unique_ptr =
  get :: ptr
  get_deleter :: "nat option"

definition empty_unique_ptr :: unique_ptr where
  "empty_unique_ptr = \<lparr>get = nullptr, get_deleter = None\<rparr>"

text \<open>
  The destructor of \<open>std::unique_ptr\<close> calls the deleter on the pointer when the
  pointer is not null, then destroys the deleter, and with it what the deleter captured.
  The lambda's body is \<open>allocator->Free(ptr)\<close>.
\<close>

definition unique_ptr_destroy :: "unique_ptr \<Rightarrow> 's world \<Rightarrow> error + 's world" where
  "unique_ptr_destroy h w =
     (case (if get h \<noteq> nullptr
            then (case get_deleter h of
                    None \<Rightarrow> Inl BadFunctionCall
                  | Some a \<Rightarrow> call_Free a (get h) w)
            else Inr w) of
        Inl e \<Rightarrow> Inl e
      | Inr w1 \<Rightarrow> shared_ptr_destroy (get_deleter h) w1)"

subsection \<open>AllocArray, AllocArrayWithAlignment, MakeUniquePtr\<close>

text \<open>\<open>this\<close> is the address of the instance the member function is called on.\<close>

definition AllocArray :: "nat \<Rightarrow> size_t \<Rightarrow> size_t \<Rightarrow> 's world \<Rightarrow> error + (ptr \<times> 's world)" where
  "AllocArray this nmemb size' w =
     (case CalcMemSizeForArray nmemb size' None of
        Inl e \<Rightarrow> Inl e
      | Inr (ok, len) \<Rightarrow>
          if \<not> ok then Inr (nullptr, w)
          else (case len of
                  None \<Rightarrow> Inl UninitialisedRead
                | Some n \<Rightarrow> call_Alloc this n w))"

definition AllocArrayWithAlignment ::
    "size_t \<Rightarrow> nat \<Rightarrow> size_t \<Rightarrow> size_t \<Rightarrow> 's world \<Rightarrow> error + (ptr \<times> 's world)" where
  "AllocArrayWithAlignment alignment this nmemb size' w =
     (case CalcMemSizeForArrayWithAlignment alignment nmemb size' None of
        Inl e \<Rightarrow> Inl e
      | Inr (ok, len) \<Rightarrow>
          if \<not> ok then Inr (nullptr, w)
          else (case len of
                  None \<Rightarrow> Inl UninitialisedRead
                | Some n \<Rightarrow> call_Alloc this n w))"

text \<open>
  The template argument \<open>T\<close> of \<open>MakeUniquePtr\<close> matters through
  \<open>std::is_void<T>\<close> and \<open>sizeof(T)\<close> only.
\<close>

datatype cpp_type = Void | Object size_t

text \<open>
  The parameter \<open>allocator\<close> is passed by value: the call copies the caller's shared
  pointer into it, and every return destroys it. \<open>alloc_size\<close> starts as
  \<open>count_or_bytes\<close> and is the cell the sizing routine writes to. In the braced
  initialiser of line 217 \<open>Alloc\<close> is called first, then the lambda is built, which
  copies \<open>allocator\<close> once more.
\<close>

definition MakeUniquePtr ::
    "cpp_type \<Rightarrow> nat option \<Rightarrow> size_t \<Rightarrow> 's world \<Rightarrow> error + (unique_ptr \<times> 's world)" where
  "MakeUniquePtr T allocator count_or_bytes w =
     (case shared_ptr_copy allocator w of
        Inl e \<Rightarrow> Inl e
      | Inr w0 \<Rightarrow>
     (case allocator of
        None \<Rightarrow> Inr (empty_unique_ptr, w0)
      | Some a \<Rightarrow>
          (case (case T of
                   Void \<Rightarrow> Inr (True, Some count_or_bytes)
                 | Object sizeof_T \<Rightarrow>
                     CalcMemSizeForArray count_or_bytes sizeof_T (Some count_or_bytes)) of
             Inl e \<Rightarrow> Inl e
           | Inr (ok, alloc_size) \<Rightarrow>
               if \<not> ok
               then (case shared_ptr_destroy allocator w0 of
                       Inl e \<Rightarrow> Inl e
                     | Inr w1 \<Rightarrow> Inr (empty_unique_ptr, w1))
               else (case alloc_size of
                       None \<Rightarrow> Inl UninitialisedRead
                     | Some n \<Rightarrow>
                         (case call_Alloc a n w0 of
                            Inl e \<Rightarrow> Inl e
                          | Inr (p, w1) \<Rightarrow>
                              (case shared_ptr_copy allocator w1 of
                                 Inl e \<Rightarrow> Inl e
                               | Inr w2 \<Rightarrow>
                                   (case shared_ptr_destroy allocator w2 of
                                      Inl e \<Rightarrow> Inl e
                                    | Inr w3 \<Rightarrow>
                                        Inr (\<lparr>get = p, get_deleter = allocator\<rparr>, w3))))))))"

text \<open>
  A small allocator to run the model on: it hands out consecutive addresses from 4096
  and counts the blocks that are live.
\<close>

record bump_data =
  next_free :: size_t
  live_blocks :: nat

definition bump_allocator :: "bump_data IAllocator" where
  "bump_allocator =
     \<lparr>Alloc = (\<lambda>n s. (next_free s, s\<lparr>next_free := next_free s + n, live_blocks := live_blocks s + 1\<rparr>)),
      Free = (\<lambda>p s. s\<lparr>live_blocks := live_blocks s - 1\<rparr>),
      private_data = \<lparr>next_free = 4096, live_blocks = 0\<rparr>\<rparr>"

definition bump_world :: "nat \<Rightarrow> bump_data world" where
  "bump_world owners =
     \<lparr>store = [7 \<mapsto> \<lparr>use_count = owners, object = bump_allocator\<rparr>], trace = []\<rparr>"

section \<open>Properties of the sizing routine\<close>

subsection \<open>The constants and the two tests, read as natural numbers\<close>

lemma max_allowed_unat:
  fixes a :: size_t
  assumes "unat a < 2 ^ 32"
  shows "unat (push_bit (unat (drop_bit 1 size_t_digits)) (1 :: size_t) - a) = 2 ^ 32 - unat a"
proof -
  have e: "push_bit (unat (drop_bit 1 size_t_digits)) (1 :: size_t) = 2 ^ 32"
    by (simp add: size_t_digits_def)
  have u: "unat ((2::size_t) ^ 32) = 2 ^ 32" by simp
  have "a \<le> 2 ^ 32" using assms by (simp add: word_le_nat_alt)
  then show ?thesis unfolding e using u by (simp add: unat_sub)
qed

lemma max_size_unat:
  fixes a :: size_t
  shows "unat (size_t_max - a) = 2 ^ 64 - 1 - unat a"
proof -
  have u: "unat (- 1 :: size_t) = 2 ^ 64 - 1"
    by (simp add: unsigned_minus_1_eq_mask mask_eq_exp_minus_1)
  have "a \<le> - 1" by simp
  then show ?thesis unfolding size_t_max_def using u by (simp add: unat_sub)
qed

lemma small_product:
  fixes N S A :: nat
  assumes "N < 2 ^ 32 - A" "S < 2 ^ 32 - A"
  shows "N * S \<le> 2 ^ 64 - 1 - A"
proof -
  have n: "N \<le> 2 ^ 32 - (A + 1)" and s: "S \<le> 2 ^ 32" using assms by auto
  have "N * S \<le> (2 ^ 32 - (A + 1)) * 2 ^ 32"
    using n s by (rule mult_le_mono)
  also have "\<dots> = 2 ^ 64 - (A + 1) * 2 ^ 32"
    by (simp add: diff_mult_distrib)
  also have "\<dots> \<le> 2 ^ 64 - (A + 1)"
    by (rule diff_le_mono2) simp
  finally show ?thesis by simp
qed

lemma overflow_test_unat:
  fixes a nmemb sz :: size_t
  assumes "nmemb \<noteq> 0"
  shows "(size_t_max - a) div nmemb < sz \<longleftrightarrow> 2 ^ 64 - 1 - unat a < unat nmemb * unat sz"
proof -
  have "0 < unat nmemb" using assms by (simp add: unat_gt_0)
  then show ?thesis
    by (simp add: word_less_nat_alt unat_div max_size_unat div_less_iff_less_mult mult.commute)
qed

text \<open>The decision of the two tests, for an alignment below \<open>2 ^ 32\<close>.\<close>

lemma calc_decision:
  fixes a nmemb sz :: size_t
  assumes a: "unat a < 2 ^ 32"
  shows "CalcMemSizeForArrayWithAlignment a nmemb sz out =
     (if unat nmemb * unat sz \<le> 2 ^ 64 - 1 - unat a
      then Inr (True, Some (calc_value a nmemb sz)) else Inr (False, out))"
proof (cases "nmemb = 0")
  case True
  have "\<not> push_bit (unat (drop_bit 1 size_t_digits)) (1 :: size_t) - a \<le> 0"
    using max_allowed_unat [OF a] a by (simp add: word_le_nat_alt)
  then show ?thesis using True
    by (simp add: CalcMemSizeForArrayWithAlignment_def calc_value_def Let_def)
next
  case False
  let ?ma = "push_bit (unat (drop_bit 1 size_t_digits)) (1 :: size_t) - a"
  have pos: "0 < nmemb" using False by (simp add: word_neq_0_conv)
  have t: "(size_t_max - a) div nmemb < sz \<longleftrightarrow> \<not> unat nmemb * unat sz \<le> 2 ^ 64 - 1 - unat a"
    using overflow_test_unat [OF False, of a sz] by auto
  have small: "\<not> ?ma \<le> nmemb \<Longrightarrow> \<not> ?ma \<le> sz \<Longrightarrow> unat nmemb * unat sz \<le> 2 ^ 64 - 1 - unat a"
    using small_product [of "unat nmemb" "unat a" "unat sz"] max_allowed_unat [OF a]
    by (simp add: word_le_nat_alt)
  show ?thesis
    unfolding CalcMemSizeForArrayWithAlignment_def Let_def calc_value_def
    using False pos t small by auto
qed

subsection \<open>Rounding with the mask\<close>

lemma and_not_mask_shift:
  fixes x :: "'a::len word"
  shows "x AND NOT (mask k) = push_bit k (drop_bit k x)"
  by (rule bit_eqI) (auto simp: bit_simps)

lemma unat_and_not_mask:
  fixes x :: size_t
  shows "unat (x AND NOT (mask k)) = (unat x div 2 ^ k) * 2 ^ k"
proof -
  have le: "(unat x div 2 ^ k) * 2 ^ k \<le> unat x"
    by (rule div_times_less_eq_dividend)
  have "unat x < 2 ^ 64" using unsigned_less [of x] by simp
  with le have lt: "(unat x div 2 ^ k) * 2 ^ k < 2 ^ 64" by linarith
  have "unat (x AND NOT (mask k)) = take_bit 64 (push_bit k (drop_bit k (unat x)))"
    by (simp add: and_not_mask_shift unsigned_push_bit_eq unat_drop_bit_eq)
  also have "\<dots> = (unat x div 2 ^ k) * 2 ^ k"
    using lt by (simp add: take_bit_nat_eq_self_iff push_bit_eq_mult drop_bit_eq_div)
  finally show ?thesis .
qed

lemma unat_mask_low:
  assumes k: "k < 32"
  shows "unat (mask k :: size_t) = 2 ^ k - 1"
proof -
  have "uint (mask k :: size_t) = mask k"
    using k by (simp only: uint_mask_eq) (simp add: min_def)
  also have "\<dots> = 2 ^ k - 1" by (rule mask_eq_exp_minus_1)
  finally have "int (unat (mask k :: size_t)) = int (2 ^ k - 1)"
    by simp
  then show ?thesis by (simp only: of_nat_eq_iff)
qed

lemma round_mask_unat:
  fixes n s :: size_t
  assumes k: "k < 32" and p: "unat n * unat s \<le> 2 ^ 64 - 1 - 2 ^ k"
  shows "unat ((s * n + (push_bit k 1 - 1)) AND NOT (push_bit k 1 - 1))
           = round_up (unat n * unat s) (2 ^ k)"
proof -
  have k2: "(2::nat) ^ k < 2 ^ 64" using k by (intro power_strict_increasing) auto
  have m: "push_bit k 1 - 1 = (mask k :: size_t)"
    by (simp add: mask_eq_exp_minus_1 push_bit_eq_mult)
  have um: "unat (mask k :: size_t) = 2 ^ k - 1"
    using k by (rule unat_mask_low)
  have "unat n * unat s < 2 ^ 64" using p by simp
  then have us: "unat (s * n) = unat n * unat s"
    by (simp add: unat_mult_lem [THEN iffD1] mult.commute)
  have "unat (s * n) + unat (mask k :: size_t) < 2 ^ 64"
    using p k2 by (simp add: us um)
  then have ua: "unat (s * n + mask k) = unat n * unat s + (2 ^ k - 1)"
    by (simp add: unat_add_lem [THEN iffD1] us um)
  show ?thesis
    unfolding m unat_and_not_mask ua round_up_def by simp
qed

lemma round_up_multiple:
  assumes "0 < a"
  shows "a dvd round_up p a" and "p \<le> round_up p a" and "round_up p a < p + a"
proof -
  let ?q = "(p + a - 1) div a"
  have r: "round_up p a = ?q * a" using assms by (simp add: round_up_def)
  show "a dvd round_up p a" unfolding r by simp
  have "p + a - 1 < ?q * a + a"
    using assms dividend_less_div_times [of a "p + a - 1"] by (simp add: mult.commute)
  then show "p \<le> round_up p a" unfolding r using assms by linarith
  have "?q * a \<le> p + a - 1" by (rule div_times_less_eq_dividend)
  then show "round_up p a < p + a" unfolding r using assms by linarith
qed

lemma unat_push_bit_one:
  assumes "k < 64"
  shows "unat (2 ^ k :: size_t) = 2 ^ k"
proof -
  have lt: "(2::nat) ^ k < 2 ^ 64" using assms by (intro power_strict_increasing) auto
  have "unat (push_bit k 1 :: size_t) = take_bit 64 (push_bit k (unat (1 :: size_t)))"
    unfolding unsigned_push_bit_eq by simp
  also have "\<dots> = 2 ^ k"
    using lt assms by (simp add: take_bit_nat_eq_self_iff)
  finally show ?thesis by simp
qed

lemma power_of_two_low:
  fixes a :: size_t
  assumes "is_power_of_two a" "a < 2 ^ 32"
  shows "\<exists>k<32. a = push_bit k 1"
proof -
  from assms(1) obtain k where k: "k < 64" "a = push_bit k 1"
    by (auto simp: is_power_of_two_def)
  have "unat a = 2 ^ k"
    using k by (simp add: unat_push_bit_one)
  moreover have "unat a < 2 ^ 32" using assms(2) by (simp add: word_less_nat_alt)
  ultimately have "(2::nat) ^ k < 2 ^ 32" by simp
  then have "k < 32" by (simp only: power_strict_increasing_iff) 
  with k show ?thesis by blast
qed

lemma calc_zero_count:
  fixes a :: size_t
  assumes "a \<noteq> push_bit 32 1"
  shows "CalcMemSizeForArrayWithAlignment a 0 sz out = Inr (True, Some 0)"
proof -
  have e: "push_bit (unat (drop_bit 1 size_t_digits)) (1 :: size_t) = push_bit 32 1"
    by (simp add: size_t_digits_def)
  have "push_bit 32 1 - a \<noteq> 0" using assms by simp
  then have "\<not> push_bit 32 1 - a \<le> 0" by (simp add: word_le_nat_alt unat_eq_zero)
  then show ?thesis
    unfolding CalcMemSizeForArrayWithAlignment_def Let_def e
    by (simp add: word_bw_comms)
qed


lemma unat_size_t_max: "unat size_t_max = 18446744073709551615"
  using max_size_unat [of 0] by simp

lemmas calc_eval = CalcMemSizeForArrayWithAlignment_def size_t_digits_def size_t_max_def Let_def

subsection \<open>Claims about the sizing routine\<close>

text \<open>
  Claim C1, as the code has it. For an alignment that is 0 or a power of two below
  \<open>2 ^ 32\<close>, the routine returns true exactly when the product of the element count
  and the element size, plus the alignment, does not exceed the largest \<open>size_t\<close>;
  it then writes the product rounded up to the next multiple of the alignment (the
  product itself for alignment 0), and that value is exact, not wrapped. Otherwise it
  returns false and leaves the cell as it was.
\<close>

theorem CalcMemSizeForArrayWithAlignment_result:
  assumes "alignment = 0 \<or> (is_power_of_two alignment \<and> alignment < 2 ^ 32)"
  shows "if unat nmemb * unat size' + unat alignment \<le> unat size_t_max
         then \<exists>v. CalcMemSizeForArrayWithAlignment alignment nmemb size' out = Inr (True, Some v)
                  \<and> unat v = round_up (unat nmemb * unat size') (unat alignment)
         else CalcMemSizeForArrayWithAlignment alignment nmemb size' out = Inr (False, out)"
proof -
  have mx: "unat size_t_max = 2 ^ 64 - 1"
    using max_size_unat [of 0] by simp
  have small: "unat alignment < 2 ^ 32"
    using assms by (auto simp: word_less_nat_alt)
  have c: "unat nmemb * unat size' + unat alignment \<le> unat size_t_max
             \<longleftrightarrow> unat nmemb * unat size' \<le> 2 ^ 64 - 1 - unat alignment"
    using small unfolding mx by auto
  show ?thesis
  proof (cases "unat nmemb * unat size' \<le> 2 ^ 64 - 1 - unat alignment")
    case False
    then show ?thesis using calc_decision [OF small, of nmemb size' out] c by simp
  next
    case True
    have v: "unat (calc_value alignment nmemb size') = round_up (unat nmemb * unat size') (unat alignment)"
    proof (cases "alignment = 0")
      case z: True
      have "unat nmemb * unat size' < 2 ^ 64" using True by simp
      then have "unat (size' * nmemb) = unat nmemb * unat size'"
        by (simp add: unat_mult_lem [THEN iffD1] mult.commute)
      then show ?thesis using z by (simp add: calc_value_def round_up_def)
    next
      case nz: False
      with assms power_of_two_low obtain k where k: "k < 32" "alignment = push_bit k 1"
        by blast
      have ua: "unat alignment = 2 ^ k"
        using k by (simp add: unat_push_bit_one)
      show ?thesis
        using round_mask_unat [OF k(1), of nmemb size'] True nz
        unfolding calc_value_def ua k(2) [symmetric] by simp
    qed
    show ?thesis using calc_decision [OF small, of nmemb size' out] c True v by simp
  qed
qed

theorem CalcMemSizeForArrayWithAlignment_result_witness:
  "((16 :: size_t) = 0 \<or> (is_power_of_two 16 \<and> (16 :: size_t) < 2 ^ 32))
   \<and> (\<exists>v. CalcMemSizeForArrayWithAlignment 16 1 10 None = Inr (True, Some v) \<and> unat v = 16)
   \<and> CalcMemSizeForArrayWithAlignment 0 (- 1) 2 None = Inr (False, None)"
proof -
  have p: "is_power_of_two 16" by code_simp
  have h: "(16 :: size_t) = 0 \<or> (is_power_of_two 16 \<and> (16 :: size_t) < 2 ^ 32)"
    using p by simp
  have h0: "(0 :: size_t) = 0 \<or> (is_power_of_two 0 \<and> (0 :: size_t) < 2 ^ 32)"
    by simp
  have r: "round_up 10 16 = 16" by (simp add: round_up_def)
  have a: "\<exists>v. CalcMemSizeForArrayWithAlignment 16 1 10 None = Inr (True, Some v) \<and> unat v = 16"
    using CalcMemSizeForArrayWithAlignment_result [OF h, of 1 10 None] r
    by (simp add: unat_size_t_max)
  have b: "CalcMemSizeForArrayWithAlignment 0 (- 1) 2 None = Inr (False, None)"
    using CalcMemSizeForArrayWithAlignment_result [OF h0, of "- 1" 2 None]
    by (simp add: unat_size_t_max unsigned_minus_1_eq_mask mask_eq_exp_minus_1)
  show ?thesis using h a b by blast
qed

text \<open>
  The routine is stricter than "the rounded product fits": with alignment 16, one
  element of \<open>2 ^ 64 - 16\<close> bytes has a product that is already a multiple of 16 and
  fits in \<open>size_t\<close>, yet the call returns false, because \<open>max_size\<close> keeps the whole
  alignment in reserve.
\<close>

theorem CalcMemSizeForArrayWithAlignment_rejects_representable:
  "is_power_of_two 16
   \<and> round_up (unat (1 :: size_t) * unat (- 16 :: size_t)) (unat (16 :: size_t)) \<le> unat size_t_max
   \<and> CalcMemSizeForArrayWithAlignment 16 1 (- 16) None = Inr (False, None)"
proof -
  have p: "is_power_of_two 16" by code_simp
  have r: "round_up (unat (1 :: size_t) * unat (- 16 :: size_t)) (unat (16 :: size_t)) \<le> unat size_t_max"
    by (simp add: round_up_def unat_size_t_max)
  have c: "CalcMemSizeForArrayWithAlignment 16 1 (- 16) None = Inr (False, None)"
    by (simp add: calc_eval)
  show ?thesis using p r c by blast
qed

text \<open>
  Claim C2. For every alignment, element count and element size: when the routine
  returns false, the cell behind \<open>out\<close> holds what it held before the call. An
  uninitialised cell stays uninitialised.
\<close>

theorem CalcMemSizeForArrayWithAlignment_failure_keeps_out:
  assumes "CalcMemSizeForArrayWithAlignment alignment nmemb size' out = Inr (False, out')"
  shows "out' = out"
  using assms
  by (simp add: CalcMemSizeForArrayWithAlignment_def Let_def split: if_splits)

theorem CalcMemSizeForArrayWithAlignment_failure_keeps_out_witness:
  "CalcMemSizeForArrayWithAlignment 0 (- 1) 2 (Some 7) = Inr (False, Some 7)
   \<and> CalcMemSizeForArrayWithAlignment 0 (- 1) 2 None = Inr (False, None)"
proof -
  have "\<exists>o'. CalcMemSizeForArrayWithAlignment 0 (- 1) 2 (Some 7) = Inr (False, o')"
    by (simp add: calc_eval)
  then obtain o' where 1: "CalcMemSizeForArrayWithAlignment 0 (- 1) 2 (Some 7) = Inr (False, o')"
    by blast
  have "\<exists>o'. CalcMemSizeForArrayWithAlignment 0 (- 1) 2 None = Inr (False, o')"
    by (simp add: calc_eval)
  then obtain o'' where 2: "CalcMemSizeForArrayWithAlignment 0 (- 1) 2 None = Inr (False, o'')"
    by blast
  show ?thesis
    using 1 2 CalcMemSizeForArrayWithAlignment_failure_keeps_out [OF 1]
      CalcMemSizeForArrayWithAlignment_failure_keeps_out [OF 2] by simp
qed

text \<open>
  Claim C10 at the alignment \<open>2 ^ 32\<close>, a power of two: \<open>max_allowed\<close> is then 0,
  the first test finds \<open>nmemb >= max_allowed\<close> true for an element count of 0 and
  divides by that count. The call does not return true; it divides by zero, whatever
  the element size.
\<close>

theorem CalcMemSizeForArrayWithAlignment_zero_count_divides_by_zero:
  "is_power_of_two (push_bit 32 1)
   \<and> CalcMemSizeForArrayWithAlignment (push_bit 32 1) 0 size' out = Inl DivisionByZero"
proof -
  have p: "is_power_of_two (push_bit 32 1)" by code_simp
  have c: "CalcMemSizeForArrayWithAlignment (push_bit 32 1) 0 size' out = Inl DivisionByZero"
    by (simp add: calc_eval)
  show ?thesis using p c by blast
qed

text \<open>At every other alignment a count of 0 gives true and the value 0.\<close>

lemma zero_count_other_alignments:
  fixes a :: size_t
  assumes "a \<noteq> push_bit 32 1"
  shows "CalcMemSizeForArrayWithAlignment a 0 sz out = Inr (True, Some 0)"
  using assms by (rule calc_zero_count)

section \<open>OrtDevice\<close>

lemma sint_inject:
  fixes a b :: "'a::len word"
  shows "sint a = sint b \<longleftrightarrow> a = b"
  by (auto intro: signed_word_eqI)

text \<open>
  Claim C6. Equality on \<open>OrtDevice\<close> is reflexive, symmetric and transitive; two
  devices are equal exactly when their kind, memory-class and index fields are pairwise
  equal; and \<open>!=\<close> is the negation of \<open>==\<close>.
\<close>

theorem OrtDevice_eq_equivalence:
  "OrtDevice_eq a a
   \<and> (OrtDevice_eq a b \<longrightarrow> OrtDevice_eq b a)
   \<and> (OrtDevice_eq a b \<longrightarrow> OrtDevice_eq b c \<longrightarrow> OrtDevice_eq a c)
   \<and> (OrtDevice_eq a b \<longleftrightarrow>
        device_type a = device_type b \<and> memory_type a = memory_type b \<and> device_id a = device_id b)
   \<and> (OrtDevice_neq a b \<longleftrightarrow> \<not> OrtDevice_eq a b)"
  by (auto simp: OrtDevice_eq_def OrtDevice_neq_def Type_def MemType_def Id_def sint_inject)

theorem OrtDevice_eq_equivalence_witness:
  "OrtDevice_eq \<lparr>device_type = GPU, memory_type = MemType_CUDA_PINNED, device_id = 3\<rparr>
                \<lparr>device_type = 1, memory_type = 1, device_id = 3\<rparr>
   \<and> OrtDevice_eq \<lparr>device_type = 1, memory_type = 1, device_id = 3\<rparr>
                  \<lparr>device_type = GPU, memory_type = MemType_CUDA_PINNED, device_id = 3\<rparr>
   \<and> OrtDevice_neq OrtDevice_default \<lparr>device_type = CPU, memory_type = MemType_DEFAULT, device_id = - 1\<rparr>"
proof -
  let ?a = "\<lparr>device_type = GPU, memory_type = MemType_CUDA_PINNED, device_id = 3\<rparr>"
  let ?b = "\<lparr>device_type = 1, memory_type = 1, device_id = 3 :: 16 word\<rparr>"
  let ?d = "\<lparr>device_type = CPU, memory_type = MemType_DEFAULT, device_id = - 1 :: 16 word\<rparr>"
  have f: "device_type ?a = device_type ?b \<and> memory_type ?a = memory_type ?b
             \<and> device_id ?a = device_id ?b"
    by (simp add: GPU_def MemType_CUDA_PINNED_def)
  have ab: "OrtDevice_eq ?a ?b"
    using OrtDevice_eq_equivalence [of ?a ?b ?a] f by blast
  have ba: "OrtDevice_eq ?b ?a"
    using OrtDevice_eq_equivalence [of ?a ?b ?a] ab by blast
  have g: "device_id OrtDevice_default \<noteq> device_id ?d"
    by (simp add: OrtDevice_default_def)
  have n: "OrtDevice_neq OrtDevice_default ?d"
    using OrtDevice_eq_equivalence [of OrtDevice_default ?d ?d] g by blast
  show ?thesis using ab ba n by blast
qed

section \<open>Textual renderings\<close>

text \<open>The digits written for a number read back as that number.\<close>

lemma of_char_digit_char:
  assumes "d < 10"
  shows "(of_char (digit_char d) :: nat) = 48 + d"
proof -
  have "(48 + d) mod 256 = 48 + d" using assms by simp
  then show ?thesis by (simp add: digit_char_def)
qed

lemma digit_value_digit_char:
  assumes "d < 10"
  shows "digit_value (digit_char d) = d"
  using of_char_digit_char [OF assms] by (simp add: digit_value_def)

lemma digit_char_not_minus:
  assumes "d < 10"
  shows "digit_char d \<noteq> CHR ''-''"
proof
  assume "digit_char d = CHR ''-''"
  then have "(of_char (digit_char d) :: nat) = of_char CHR ''-''" by simp
  then show False using of_char_digit_char [OF assms] by simp
qed

lemma dec_value_snoc: "dec_value (s @ [c]) = 10 * dec_value s + digit_value c"
  by (simp add: dec_value_def)

lemma dec_value_dec_digits: "dec_value (dec_digits n) = n"
proof (induction n rule: dec_digits.induct)
  case (1 n)
  show ?case
  proof (cases "n < 10")
    case True
    then show ?thesis
      by (subst dec_digits.simps) (simp add: dec_value_def digit_value_digit_char)
  next
    case False
    then have "dec_value (dec_digits (n div 10)) = n div 10" by (rule "1.IH")
    with False show ?thesis
      by (subst dec_digits.simps) (simp add: dec_value_snoc digit_value_digit_char)
  qed
qed

lemma dec_digits_head: "\<exists>d cs. d < 10 \<and> dec_digits n = digit_char d # cs"
proof (induction n rule: dec_digits.induct)
  case (1 n)
  show ?case
  proof (cases "n < 10")
    case True
    then show ?thesis by (subst dec_digits.simps) auto
  next
    case False
    then obtain d cs where "d < 10" "dec_digits (n div 10) = digit_char d # cs"
      using "1.IH" by blast
    with False show ?thesis by (subst dec_digits.simps) auto
  qed
qed

lemma read_int_show_int: "read_int (show_int i) = i"
proof (cases "i < 0")
  case True
  then show ?thesis by (simp add: show_int_def read_int_def dec_value_dec_digits)
next
  case False
  obtain d cs where d: "d < 10" "dec_digits (nat i) = digit_char d # cs"
    using dec_digits_head by blast
  have "dec_value (digit_char d # cs) = nat i"
    using dec_value_dec_digits [of "nat i"] d by simp
  then show ?thesis
    using False d digit_char_not_minus [OF d(1)]
    by (simp add: show_int_def read_int_def)
qed

lemma insert_all_Nil: "insert_all [] ostr = ostr"
  by (simp add: insert_all_def)

lemma insert_all_put_string: "insert_all (put_string s # ins) ostr = insert_all ins (ostr @ s)"
  by (simp add: insert_all_def put_string_def)

lemma insert_all_put_int: "insert_all (put_int i # ins) ostr = insert_all ins (ostr @ show_int i)"
  by (simp add: insert_all_def put_int_def)

lemmas insert_all_simps = insert_all_Nil insert_all_put_string insert_all_put_int

text \<open>
  Claim C8, as the code has it. The rendering of a device is
  \<open>Device: [ type:<int> memory_type:<int> device_id:<int>]\<close> and that of a descriptor
  with a non-null name is
  \<open>OrtMemoryInfo: [ name:<string> id:<int> mem_type:<int> type:<int>]\<close>: one space
  after the opening bracket and before each field, none between the last field and the
  closing bracket.
\<close>

theorem ToString_renderings:
  "OrtDevice_ToString d =
     ''Device: [ type:'' @ show_int (sint (device_type d))
       @ '' memory_type:'' @ show_int (sint (memory_type d))
       @ '' device_id:'' @ show_int (sint (device_id d)) @ '']''
   \<and> (name m = Some s \<longrightarrow>
        OrtMemoryInfo_ToString m =
          Inr (''OrtMemoryInfo: [ name:'' @ c_str s
               @ '' id:'' @ show_int (sint (id' m))
               @ '' mem_type:'' @ show_int (sint (mem_type m))
               @ '' type:'' @ show_int (sint (type' m)) @ '']''))"
  by (simp add: OrtDevice_ToString_def OrtMemoryInfo_ToString_def insert_all_simps)

lemma show_int_0: "show_int 0 = ''0''" by code_simp
lemma show_int_1: "show_int 1 = ''1''" by code_simp
lemma show_int_m2: "show_int (- 2) = ''-2''" by code_simp

theorem ToString_renderings_witness:
  "OrtMemoryInfo_ToString
      \<lparr>name = Some ''Cpu'', id' = 0, mem_type = - 2, type' = 1, device = OrtDevice_default\<rparr>
     = Inr ''OrtMemoryInfo: [ name:Cpu id:0 mem_type:-2 type:1]''"
proof -
  let ?m = "\<lparr>name = Some ''Cpu'', id' = 0, mem_type = - 2, type' = 1, device = OrtDevice_default\<rparr>"
  have n: "name ?m = Some ''Cpu''" by simp
  show ?thesis
    using ToString_renderings [of OrtDevice_default ?m "''Cpu''"] n
    by (simp add: c_str_def show_int_0 show_int_1 show_int_m2)
qed

text \<open>
  The documented renderings end in a space and a bracket; the code writes the bracket
  right after the last number. On the default device and on the default CPU descriptor:
\<close>

theorem ToString_no_space_before_bracket:
  "OrtDevice_ToString OrtDevice_default = ''Device: [ type:0 memory_type:0 device_id:0]''
   \<and> OrtDevice_ToString OrtDevice_default \<noteq> ''Device: [ type:0 memory_type:0 device_id:0 ]''
   \<and> OrtMemoryInfo_ToString
        \<lparr>name = Some ''Cpu'', id' = 0, mem_type = 0, type' = 0, device = OrtDevice_default\<rparr>
       = Inr ''OrtMemoryInfo: [ name:Cpu id:0 mem_type:0 type:0]''
   \<and> OrtMemoryInfo_ToString
        \<lparr>name = Some ''Cpu'', id' = 0, mem_type = 0, type' = 0, device = OrtDevice_default\<rparr>
       \<noteq> Inr ''OrtMemoryInfo: [ name:Cpu id:0 mem_type:0 type:0 ]''"
  by (simp add: OrtDevice_ToString_def OrtMemoryInfo_ToString_def insert_all_simps
      OrtDevice_default_def CPU_def MemType_DEFAULT_def c_str_def show_int_0)

section \<open>OrtMemoryInfo: ordering and equality\<close>

lemma of_char_zero_iff: "(of_char c :: nat) = 0 \<longleftrightarrow> c = CHR 0x00"
proof -
  have "(of_char c :: nat) = of_char (CHR 0x00) \<longleftrightarrow> c = CHR 0x00"
    by (rule of_char_eq_iff)
  then show ?thesis by simp
qed

lemma strcmp_less_iff: "strcmp s t < 0 \<longleftrightarrow> c_str s < c_str t"
proof (induction s t rule: strcmp.induct)
  case 1
  show ?case by (simp add: c_str_def)
next
  case (2 y ys)
  show ?case using of_char_zero_iff [of y] by (auto simp: c_str_def)
next
  case (3 x xs)
  show ?case by (simp add: c_str_def)
next
  case (4 x xs y ys)
  show ?case
  proof (cases "x = y")
    case True
    then show ?thesis using 4 by (simp add: c_str_def)
  next
    case False
    then show ?thesis
      using of_char_zero_iff [of x] of_char_zero_iff [of y]
      by (auto simp: c_str_def less_char_def)
  qed
qed

lemma strcmp_eq_iff: "strcmp s t = 0 \<longleftrightarrow> c_str s = c_str t"
proof (induction s t rule: strcmp.induct)
  case 1
  show ?case by (simp add: c_str_def)
next
  case (2 y ys)
  show ?case using of_char_zero_iff [of y] by (auto simp: c_str_def)
next
  case (3 x xs)
  show ?case using of_char_zero_iff [of x] by (auto simp: c_str_def)
next
  case (4 x xs y ys)
  show ?case
  proof (cases "x = y")
    case True
    then show ?thesis using 4 by (simp add: c_str_def)
  next
    case False
    then show ?thesis
      using of_char_zero_iff [of x] of_char_zero_iff [of y]
      by (auto simp: c_str_def)
  qed
qed

lemma OrtMemoryInfo_less_spec:
  assumes "name a \<noteq> None" "name b \<noteq> None"
  shows "OrtMemoryInfo_less a b = Inr (spec_less a b)"
proof -
  from assms obtain s t where n: "name a = Some s" "name b = Some t" by auto
  have e: "type' a = type' b \<longleftrightarrow> sint (type' a) = sint (type' b)"
    "mem_type a = mem_type b \<longleftrightarrow> sint (mem_type a) = sint (mem_type b)"
    "id' a = id' b \<longleftrightarrow> sint (id' a) = sint (id' b)"
    by (simp_all add: sint_inject)
  show ?thesis
    unfolding OrtMemoryInfo_less_def spec_less_def order_key_def e
    using n
    by (auto simp: less_prod_def word_sless_alt strcmp_less_iff)
qed

lemma OrtMemoryInfo_eq_spec:
  assumes "name a \<noteq> None" "name b \<noteq> None"
  shows "OrtMemoryInfo_eq a b = Inr (spec_eq a b)"
proof -
  from assms obtain s t where n: "name a = Some s" "name b = Some t" by auto
  show ?thesis
    unfolding OrtMemoryInfo_eq_def spec_eq_def order_key_def
    using n
    by (auto simp: sint_inject strcmp_eq_iff)
qed

lemma order_key_device: "order_key (m\<lparr>device := d\<rparr>) = order_key m"
  by (simp add: order_key_def)

text \<open>
  Claim C5. For descriptors with non-null names, \<open><\<close> is the lexicographic order on
  (allocator-strategy tag, memory-class tag, id, name) and \<open>==\<close> is equality of the
  same four fields; exactly one of \<open>a < b\<close>, \<open>b < a\<close>, \<open>a == b\<close> holds; \<open><\<close> is
  irreflexive and transitive, and \<open>==\<close>, which is its incomparability relation, is
  transitive: a strict weak ordering. The embedded device takes part in neither.
\<close>

theorem OrtMemoryInfo_strict_weak_order:
  assumes "name a \<noteq> None" and "name b \<noteq> None" and "name c \<noteq> None"
  shows "OrtMemoryInfo_less a b = Inr (spec_less a b)
    \<and> OrtMemoryInfo_eq a b = Inr (spec_eq a b)
    \<and> ((OrtMemoryInfo_less a b = Inr True \<and> OrtMemoryInfo_less b a = Inr False
            \<and> OrtMemoryInfo_eq a b = Inr False)
       \<or> (OrtMemoryInfo_less a b = Inr False \<and> OrtMemoryInfo_less b a = Inr True
            \<and> OrtMemoryInfo_eq a b = Inr False)
       \<or> (OrtMemoryInfo_less a b = Inr False \<and> OrtMemoryInfo_less b a = Inr False
            \<and> OrtMemoryInfo_eq a b = Inr True))
    \<and> OrtMemoryInfo_less a a = Inr False
    \<and> (OrtMemoryInfo_less a b = Inr True \<longrightarrow> OrtMemoryInfo_less b c = Inr True
          \<longrightarrow> OrtMemoryInfo_less a c = Inr True)
    \<and> (OrtMemoryInfo_eq a b = Inr True \<longrightarrow> OrtMemoryInfo_eq b c = Inr True
          \<longrightarrow> OrtMemoryInfo_eq a c = Inr True)
    \<and> OrtMemoryInfo_less (a\<lparr>device := d\<rparr>) (b\<lparr>device := e\<rparr>) = OrtMemoryInfo_less a b
    \<and> OrtMemoryInfo_eq (a\<lparr>device := d\<rparr>) (b\<lparr>device := e\<rparr>) = OrtMemoryInfo_eq a b"
proof -
  note l = OrtMemoryInfo_less_spec and q = OrtMemoryInfo_eq_spec
  have tri: "(spec_less a b \<and> \<not> spec_less b a \<and> \<not> spec_eq a b)
      \<or> (\<not> spec_less a b \<and> spec_less b a \<and> \<not> spec_eq a b)
      \<or> (\<not> spec_less a b \<and> \<not> spec_less b a \<and> spec_eq a b)"
    unfolding spec_less_def spec_eq_def by auto
  have irr: "\<not> spec_less a a" unfolding spec_less_def by simp
  have tr: "spec_less a b \<Longrightarrow> spec_less b c \<Longrightarrow> spec_less a c"
    unfolding spec_less_def by (rule less_trans)
  have etr: "spec_eq a b \<Longrightarrow> spec_eq b c \<Longrightarrow> spec_eq a c"
    unfolding spec_eq_def by simp
  have nd: "name (a\<lparr>device := d\<rparr>) \<noteq> None" "name (b\<lparr>device := e\<rparr>) \<noteq> None"
    using assms by simp_all
  have dl: "spec_less (a\<lparr>device := d\<rparr>) (b\<lparr>device := e\<rparr>) = spec_less a b"
    by (simp add: spec_less_def order_key_device)
  have de: "spec_eq (a\<lparr>device := d\<rparr>) (b\<lparr>device := e\<rparr>) = spec_eq a b"
    by (simp add: spec_eq_def order_key_device)
  show ?thesis
    using tri irr tr etr
    by (simp add: l q assms nd dl de)
qed

theorem OrtMemoryInfo_strict_weak_order_witness:
  "OrtMemoryInfo_less
      \<lparr>name = Some ''Cpu'', id' = 0, mem_type = 0, type' = 0, device = OrtDevice_default\<rparr>
      \<lparr>name = Some ''Cuda'', id' = 0, mem_type = 0, type' = 0, device = OrtDevice_default\<rparr>
     = Inr True
   \<and> OrtMemoryInfo_less
      \<lparr>name = Some ''Cuda'', id' = 0, mem_type = 0, type' = 0, device = OrtDevice_default\<rparr>
      \<lparr>name = Some ''CudaPinned'', id' = 0, mem_type = 0, type' = 0, device = OrtDevice_default\<rparr>
     = Inr True
   \<and> OrtMemoryInfo_less
      \<lparr>name = Some ''Cpu'', id' = 0, mem_type = 0, type' = 0, device = OrtDevice_default\<rparr>
      \<lparr>name = Some ''CudaPinned'', id' = 0, mem_type = 0, type' = 0, device = OrtDevice_default\<rparr>
     = Inr True
   \<and> OrtMemoryInfo_eq
      \<lparr>name = Some ''Cpu'', id' = 0, mem_type = 0, type' = 0, device = OrtDevice_default\<rparr>
      \<lparr>name = Some ''Cpu'', id' = 0, mem_type = 0, type' = 0,
        device = \<lparr>device_type = GPU, memory_type = MemType_DEFAULT, device_id = 1\<rparr>\<rparr>
     = Inr True
   \<and> OrtMemoryInfo_less
      \<lparr>name = Some ''Cpu'', id' = 0, mem_type = 0, type' = 0, device = OrtDevice_default\<rparr>
      \<lparr>name = Some ''Cpu'', id' = 0, mem_type = 0, type' = 0,
        device = \<lparr>device_type = GPU, memory_type = MemType_DEFAULT, device_id = 1\<rparr>\<rparr>
     = Inr False"
proof -
  let ?a = "\<lparr>name = Some ''Cpu'', id' = 0, mem_type = 0, type' = 0, device = OrtDevice_default\<rparr>"
  let ?b = "\<lparr>name = Some ''Cuda'', id' = 0, mem_type = 0, type' = 0, device = OrtDevice_default\<rparr>"
  let ?c = "\<lparr>name = Some ''CudaPinned'', id' = 0, mem_type = 0, type' = 0, device = OrtDevice_default\<rparr>"
  let ?g = "\<lparr>device_type = GPU, memory_type = MemType_DEFAULT, device_id = 1\<rparr>"
  have na: "name ?a \<noteq> None" and nb: "name ?b \<noteq> None" and nc: "name ?c \<noteq> None"
    by simp_all
  have ab: "OrtMemoryInfo_less ?a ?b = Inr True"
    by (simp add: OrtMemoryInfo_less_def)
  have bc: "OrtMemoryInfo_less ?b ?c = Inr True"
    by (simp add: OrtMemoryInfo_less_def)
  have ac: "OrtMemoryInfo_less ?a ?c = Inr True"
    using OrtMemoryInfo_strict_weak_order [OF na nb nc] ab bc by blast
  have aa: "OrtMemoryInfo_eq ?a ?a = Inr True"
    by (simp add: OrtMemoryInfo_eq_def)
  note t = OrtMemoryInfo_strict_weak_order [OF na na na, of OrtDevice_default ?g]
  have irr: "OrtMemoryInfo_less ?a ?a = Inr False"
    using t by blast
  have dl: "OrtMemoryInfo_less (?a\<lparr>device := OrtDevice_default\<rparr>) (?a\<lparr>device := ?g\<rparr>)
              = OrtMemoryInfo_less ?a ?a"
    using t by blast
  have de: "OrtMemoryInfo_eq (?a\<lparr>device := OrtDevice_default\<rparr>) (?a\<lparr>device := ?g\<rparr>)
              = OrtMemoryInfo_eq ?a ?a"
    using t by blast
  have ag: "OrtMemoryInfo_eq ?a (?a\<lparr>device := ?g\<rparr>) = Inr True
            \<and> OrtMemoryInfo_less ?a (?a\<lparr>device := ?g\<rparr>) = Inr False"
    using irr dl de aa by simp
  show ?thesis using ab bc ac ag by simp
qed


section \<open>OrtMemoryInfo: construction\<close>




section \<open>AllocArray and AllocArrayWithAlignment\<close>

lemma call_Alloc_live:
  assumes "store w a = Some cb"
  shows "call_Alloc a n w =
     Inr (fst (Alloc (object cb) n (private_data (object cb))),
          w\<lparr>store := (store w)(a \<mapsto> cb\<lparr>object :=
                  (object cb)\<lparr>private_data := snd (Alloc (object cb) n (private_data (object cb)))\<rparr>\<rparr>),
            trace := trace w @ [Alloc_called a n]\<rparr>)"
  using assms by (simp add: call_Alloc_def split: prod.splits)

lemma call_Free_live:
  assumes "store w a = Some cb"
  shows "call_Free a p w =
     Inr (w\<lparr>store := (store w)(a \<mapsto> cb\<lparr>object :=
                  (object cb)\<lparr>private_data := Free (object cb) p (private_data (object cb))\<rparr>\<rparr>),
            trace := trace w @ [Free_called a p]\<rparr>)"
  using assms by (simp add: call_Free_def)

lemma calc_true_writes:
  assumes "CalcMemSizeForArrayWithAlignment alignment nmemb sz out = Inr (True, len)"
  shows "\<exists>n. len = Some n"
  using assms by (auto simp: CalcMemSizeForArrayWithAlignment_def Let_def split: if_splits)

text \<open>
  Claim C3. \<open>AllocArrayWithAlignment\<close> runs the sizing routine first. When that
  returns false, the call returns null and the world, trace included, is unchanged: no
  \<open>Alloc\<close> was invoked. When it returns true with the byte count \<open>n\<close>, exactly one
  \<open>Alloc\<close> call with \<open>n\<close> is added to the trace and its result is returned as it
  is. \<open>AllocArray\<close> is the same with alignment 0.
\<close>

theorem AllocArray_forwards:
  assumes "store w this = Some cb"
  shows "(case CalcMemSizeForArrayWithAlignment alignment nmemb size' None of
            Inl e \<Rightarrow> AllocArrayWithAlignment alignment this nmemb size' w = Inl e
          | Inr (ok, len) \<Rightarrow>
              if ok
              then \<exists>n w'. len = Some n
                     \<and> AllocArrayWithAlignment alignment this nmemb size' w
                         = Inr (fst (Alloc (object cb) n (private_data (object cb))), w')
                     \<and> trace w' = trace w @ [Alloc_called this n]
              else AllocArrayWithAlignment alignment this nmemb size' w = Inr (nullptr, w))
       \<and> AllocArray this nmemb size' w = AllocArrayWithAlignment 0 this nmemb size' w"
proof -
  have 2: "AllocArray this nmemb size' w = AllocArrayWithAlignment 0 this nmemb size' w"
    by (simp add: AllocArray_def AllocArrayWithAlignment_def CalcMemSizeForArray_def)
  have 1: "(case CalcMemSizeForArrayWithAlignment alignment nmemb size' None of
            Inl e \<Rightarrow> AllocArrayWithAlignment alignment this nmemb size' w = Inl e
          | Inr (ok, len) \<Rightarrow>
              if ok
              then \<exists>n w'. len = Some n
                     \<and> AllocArrayWithAlignment alignment this nmemb size' w
                         = Inr (fst (Alloc (object cb) n (private_data (object cb))), w')
                     \<and> trace w' = trace w @ [Alloc_called this n]
              else AllocArrayWithAlignment alignment this nmemb size' w = Inr (nullptr, w))"
  proof (cases "CalcMemSizeForArrayWithAlignment alignment nmemb size' None")
    case (Inl e)
    then show ?thesis by (simp add: AllocArrayWithAlignment_def)
  next
    case (Inr r)
    obtain ok len where r: "r = (ok, len)" by (cases r)
    show ?thesis
    proof (cases ok)
      case False
      then show ?thesis using Inr r by (simp add: AllocArrayWithAlignment_def)
    next
      case True
      have "CalcMemSizeForArrayWithAlignment alignment nmemb size' None = Inr (True, len)"
        using Inr r True by simp
      from calc_true_writes [OF this] obtain n where n: "len = Some n" by blast
      show ?thesis
        using Inr r True n call_Alloc_live [OF assms, of n]
        by (simp add: AllocArrayWithAlignment_def)
    qed
  qed
  show ?thesis using 1 2 by (rule conjI)
qed

text \<open>For \<open>AllocArray\<close> the outcome of the sizing is decided by the product alone.\<close>

lemma AllocArray_product:
  assumes "store w this = Some cb"
  shows "AllocArray this nmemb sz w =
     (if unat nmemb * unat sz \<le> unat size_t_max then call_Alloc this (sz * nmemb) w
      else Inr (nullptr, w))"
proof -
  have "unat (0 :: size_t) < 2 ^ 32" by simp
  from calc_decision [OF this, of nmemb sz None]
  show ?thesis
    by (simp add: AllocArray_def CalcMemSizeForArray_def calc_value_def unat_size_t_max)
qed

theorem AllocArray_forwards_witness:
  "(\<exists>w'. AllocArray 7 10 20 (bump_world 1) = Inr (4096, w') \<and> trace w' = [Alloc_called 7 200])
   \<and> AllocArray 7 (- 1) 2 (bump_world 1) = Inr (nullptr, bump_world 1)"
proof -
  let ?cb = "\<lparr>use_count = 1, object = bump_allocator\<rparr>"
  have s: "store (bump_world 1) 7 = Some ?cb" by (simp add: bump_world_def)
  have c1: "CalcMemSizeForArrayWithAlignment 0 10 20 None = Inr (True, Some 200)"
    by (simp add: calc_eval)
  have c2: "CalcMemSizeForArrayWithAlignment 0 (- 1) 2 None = Inr (False, None)"
    by (simp add: calc_eval)
  have a: "\<exists>w'. AllocArray 7 10 20 (bump_world 1) = Inr (4096, w') \<and> trace w' = [Alloc_called 7 200]"
    using AllocArray_forwards [OF s, of 0 10 20] c1
    by (simp add: bump_allocator_def bump_world_def)
  have b: "AllocArray 7 (- 1) 2 (bump_world 1) = Inr (nullptr, bump_world 1)"
    using AllocArray_forwards [OF s, of 0 "- 1" 2] c2 by simp
  show ?thesis using a b by (rule conjI)
qed

section \<open>MakeUniquePtr\<close>

lemma shared_ptr_copy_live:
  assumes "store w a = Some cb"
  shows "shared_ptr_copy (Some a) w
           = Inr (w\<lparr>store := (store w)(a \<mapsto> cb\<lparr>use_count := use_count cb + 1\<rparr>)\<rparr>)"
  using assms by (simp add: shared_ptr_copy_def)

lemma shared_ptr_destroy_shared:
  assumes "store w a = Some cb" "1 < use_count cb"
  shows "shared_ptr_destroy (Some a) w
           = Inr (w\<lparr>store := (store w)(a \<mapsto> cb\<lparr>use_count := use_count cb - 1\<rparr>)\<rparr>)"
  using assms by (simp add: shared_ptr_destroy_def)

lemma shared_ptr_destroy_last:
  assumes "store w a = Some cb" "use_count cb \<le> 1"
  shows "shared_ptr_destroy (Some a) w
           = Inr (w\<lparr>store := (store w)(a := None), trace := trace w @ [Destroyed a]\<rparr>)"
  using assms by (simp add: shared_ptr_destroy_def)

text \<open>
  The world after a call of \<open>MakeUniquePtr\<close> that reached \<open>Alloc\<close> with \<open>n\<close> bytes:
  the instance has run \<open>Alloc\<close>, one more owner (the deleter) is counted, and the call
  is in the trace.
\<close>

lemma MakeUniquePtr_Void:
  assumes live: "store w a = Some cb"
  shows "MakeUniquePtr Void (Some a) n w =
     Inr (\<lparr>get = fst (Alloc (object cb) n (private_data (object cb))), get_deleter = Some a\<rparr>,
          w\<lparr>trace := trace w @ [Alloc_called a n],
            store := (store w)(a \<mapsto>
                 cb\<lparr>object := (object cb)\<lparr>private_data :=
                      snd (Alloc (object cb) n (private_data (object cb)))\<rparr>,
                    use_count := use_count cb + 1\<rparr>)\<rparr>)"
  using live
  by (simp add: MakeUniquePtr_def shared_ptr_copy_def shared_ptr_destroy_def call_Alloc_def
      split_def)

lemma MakeUniquePtr_Object:
  assumes live: "store w a = Some cb" and owned: "0 < use_count cb"
  shows "MakeUniquePtr (Object sz) (Some a) n w =
     (if unat n * unat sz \<le> unat size_t_max
      then Inr (\<lparr>get = fst (Alloc (object cb) (sz * n) (private_data (object cb))),
                 get_deleter = Some a\<rparr>,
                w\<lparr>trace := trace w @ [Alloc_called a (sz * n)],
                  store := (store w)(a \<mapsto>
                       cb\<lparr>object := (object cb)\<lparr>private_data :=
                            snd (Alloc (object cb) (sz * n) (private_data (object cb)))\<rparr>,
                          use_count := use_count cb + 1\<rparr>)\<rparr>)
      else Inr (empty_unique_ptr, w))"
proof -
  have z: "unat (0 :: size_t) < 2 ^ 32" by simp
  note d = calc_decision [OF z, of n sz "Some n"]
  have same: "w\<lparr>store := (store w)(a \<mapsto> cb)\<rparr> = w"
    using live by (simp add: map_upd_triv)
  show ?thesis
  proof (cases "unat n * unat sz \<le> unat size_t_max")
    case True
    then show ?thesis
      using live d
      by (simp add: MakeUniquePtr_def CalcMemSizeForArray_def calc_value_def unat_size_t_max
          shared_ptr_copy_def shared_ptr_destroy_def call_Alloc_def split_def)
  next
    case False
    then show ?thesis
      using live owned d same
      by (simp add: MakeUniquePtr_def CalcMemSizeForArray_def unat_size_t_max
          shared_ptr_copy_def shared_ptr_destroy_def)
  qed
qed


lemma bump_world_store: "store (bump_world k) 7 = Some \<lparr>use_count = k, object = bump_allocator\<rparr>"
  by (simp add: bump_world_def)

lemma bump_Alloc: "Alloc bump_allocator n (private_data bump_allocator)
    = (4096, \<lparr>next_free = 4096 + n, live_blocks = 1\<rparr>)"
  by (simp add: bump_allocator_def)


text \<open>
  Claim C4. With an empty allocator \<open>MakeUniquePtr\<close> returns an empty handle. With
  a live allocator: for \<open>T = void\<close> it calls \<open>Alloc\<close> once, with exactly
  \<open>count_or_bytes\<close>; for any other \<open>T\<close> it calls \<open>Alloc\<close> once with
  \<open>count_or_bytes * sizeof(T)\<close>, the exact product, when that fits in \<open>size_t\<close>,
  and when it does not fit it returns an empty handle and leaves the world, trace
  included, as it was: \<open>Alloc\<close> was not called.
\<close>

theorem MakeUniquePtr_allocates:
  assumes live: "store w a = Some cb" and owned: "0 < use_count cb"
  shows "MakeUniquePtr T None n w = Inr (empty_unique_ptr, w)
    \<and> (\<exists>w'. MakeUniquePtr Void (Some a) n w
               = Inr (\<lparr>get = fst (Alloc (object cb) n (private_data (object cb))),
                       get_deleter = Some a\<rparr>, w')
            \<and> trace w' = trace w @ [Alloc_called a n])
    \<and> (unat n * unat sz \<le> unat size_t_max \<longrightarrow>
          unat (sz * n) = unat n * unat sz
        \<and> (\<exists>w'. MakeUniquePtr (Object sz) (Some a) n w
               = Inr (\<lparr>get = fst (Alloc (object cb) (sz * n) (private_data (object cb))),
                       get_deleter = Some a\<rparr>, w')
            \<and> trace w' = trace w @ [Alloc_called a (sz * n)]))
    \<and> (unat size_t_max < unat n * unat sz \<longrightarrow>
          MakeUniquePtr (Object sz) (Some a) n w = Inr (empty_unique_ptr, w))"
proof -
  have 1: "MakeUniquePtr T None n w = Inr (empty_unique_ptr, w)"
    by (simp add: MakeUniquePtr_def shared_ptr_copy_def)
  have 2: "\<exists>w'. MakeUniquePtr Void (Some a) n w
               = Inr (\<lparr>get = fst (Alloc (object cb) n (private_data (object cb))),
                       get_deleter = Some a\<rparr>, w')
            \<and> trace w' = trace w @ [Alloc_called a n]"
    by (simp add: MakeUniquePtr_Void [OF live])
  have 3: "unat (sz * n) = unat n * unat sz" if "unat n * unat sz \<le> unat size_t_max"
  proof -
    have "unat sz * unat n < 2 ^ 64" using that by (simp add: unat_size_t_max mult.commute)
    then show ?thesis by (simp add: unat_mult_lem [THEN iffD1] mult.commute)
  qed
  have 4: "\<exists>w'. MakeUniquePtr (Object sz) (Some a) n w
               = Inr (\<lparr>get = fst (Alloc (object cb) (sz * n) (private_data (object cb))),
                       get_deleter = Some a\<rparr>, w')
            \<and> trace w' = trace w @ [Alloc_called a (sz * n)]"
    if "unat n * unat sz \<le> unat size_t_max"
    using that by (simp add: MakeUniquePtr_Object [OF live owned])
  have 5: "MakeUniquePtr (Object sz) (Some a) n w = Inr (empty_unique_ptr, w)"
    if "unat size_t_max < unat n * unat sz"
    using that by (simp add: MakeUniquePtr_Object [OF live owned])
  show ?thesis using 1 2 3 4 5 by blast
qed

theorem MakeUniquePtr_allocates_witness:
  "(\<exists>w'. MakeUniquePtr (Object 4) (Some 7) 4 (bump_world 2)
            = Inr (\<lparr>get = 4096, get_deleter = Some 7\<rparr>, w')
          \<and> trace w' = [Alloc_called 7 16])
   \<and> (\<exists>w'. MakeUniquePtr Void (Some 7) 4 (bump_world 2)
            = Inr (\<lparr>get = 4096, get_deleter = Some 7\<rparr>, w')
          \<and> trace w' = [Alloc_called 7 4])
   \<and> MakeUniquePtr (Object 4) (Some 7) (push_bit 62 1) (bump_world 2)
        = Inr (empty_unique_ptr, bump_world 2)
   \<and> MakeUniquePtr (Object 4) None 4 (bump_world 2) = Inr (empty_unique_ptr, bump_world 2)"
proof -
  let ?cb = "\<lparr>use_count = 2, object = bump_allocator\<rparr>"
  have s: "store (bump_world 2) 7 = Some ?cb" by (rule bump_world_store)
  have o: "0 < use_count ?cb" by simp
  have t: "trace (bump_world 2) = []" by (simp add: bump_world_def)
  note m = MakeUniquePtr_allocates [OF s o]
  have a: "\<exists>w'. MakeUniquePtr (Object 4) (Some 7) 4 (bump_world 2)
            = Inr (\<lparr>get = 4096, get_deleter = Some 7\<rparr>, w')
          \<and> trace w' = [Alloc_called 7 16]"
    using m [of "Object 4" 4 4] by (simp add: unat_size_t_max bump_Alloc t)
  have b: "\<exists>w'. MakeUniquePtr Void (Some 7) 4 (bump_world 2)
            = Inr (\<lparr>get = 4096, get_deleter = Some 7\<rparr>, w')
          \<and> trace w' = [Alloc_called 7 4]"
    using m [of Void 4 4] by (simp add: bump_Alloc t)
  have c: "MakeUniquePtr (Object 4) (Some 7) (push_bit 62 1) (bump_world 2)
        = Inr (empty_unique_ptr, bump_world 2)"
    using m [of Void "push_bit 62 1" 4] by (simp add: unat_size_t_max)
  have d: "MakeUniquePtr (Object 4) None 4 (bump_world 2) = Inr (empty_unique_ptr, bump_world 2)"
    using m [of "Object 4" 4 4] by blast
  show ?thesis using a b c d by blast
qed


section \<open>Lifetime of the allocator behind a handle\<close>

lemma drop_owners_shared:
  assumes "store w a = Some cb" "k < use_count cb"
  shows "drop_owners a k w = Inr (w\<lparr>store := (store w)(a \<mapsto> cb\<lparr>use_count := use_count cb - k\<rparr>)\<rparr>)"
  using assms
proof (induction k arbitrary: w cb)
  case 0
  then show ?case by (simp add: map_upd_triv)
next
  case (Suc k)
  let ?cb1 = "cb\<lparr>use_count := use_count cb - 1\<rparr>"
  let ?w1 = "w\<lparr>store := (store w)(a \<mapsto> ?cb1)\<rparr>"
  have d: "shared_ptr_destroy (Some a) w = Inr ?w1"
    using Suc.prems by (simp add: shared_ptr_destroy_shared)
  have s1: "store ?w1 a = Some ?cb1" by simp
  have k1: "k < use_count ?cb1" using Suc.prems by simp
  have m: "?w1\<lparr>store := (store ?w1)(a \<mapsto> ?cb1\<lparr>use_count := use_count ?cb1 - k\<rparr>)\<rparr>
             = w\<lparr>store := (store w)(a \<mapsto> cb\<lparr>use_count := use_count cb - Suc k\<rparr>)\<rparr>"
    by simp
  have "drop_owners a (Suc k) w = drop_owners a k ?w1"
    using d by simp
  also have "\<dots> = Inr (?w1\<lparr>store := (store ?w1)(a \<mapsto> ?cb1\<lparr>use_count := use_count ?cb1 - k\<rparr>)\<rparr>)"
    using s1 k1 by (rule Suc.IH)
  finally show ?case unfolding m .
qed

lemma release_after_drop:
  assumes live: "store w1 a = Some cb1" and count: "use_count cb1 = k + 1"
  shows "\<exists>w2 cb2 w3. drop_owners a k w1 = Inr w2 \<and> trace w2 = trace w1
           \<and> store w2 a = Some cb2 \<and> use_count cb2 = 1
           \<and> unique_ptr_destroy \<lparr>get = p, get_deleter = Some a\<rparr> w2 = Inr w3
           \<and> trace w3 = trace w2 @ (if p \<noteq> nullptr then [Free_called a p] else []) @ [Destroyed a]
           \<and> store w3 a = None"
proof -
  let ?cb2 = "cb1\<lparr>use_count := use_count cb1 - k\<rparr>"
  let ?w2 = "w1\<lparr>store := (store w1)(a \<mapsto> ?cb2)\<rparr>"
  have k: "k < use_count cb1" using count by simp
  have d: "drop_owners a k w1 = Inr ?w2"
    using live k by (rule drop_owners_shared)
  have s2: "store ?w2 a = Some ?cb2" by simp
  have c2: "use_count ?cb2 = 1" using count by simp
  have u: "\<exists>w3. unique_ptr_destroy \<lparr>get = p, get_deleter = Some a\<rparr> ?w2 = Inr w3
           \<and> trace w3 = trace ?w2 @ (if p \<noteq> nullptr then [Free_called a p] else []) @ [Destroyed a]
           \<and> store w3 a = None"
    using c2 by (simp add: unique_ptr_destroy_def call_Free_def shared_ptr_destroy_def)
  then obtain w3 where w3: "unique_ptr_destroy \<lparr>get = p, get_deleter = Some a\<rparr> ?w2 = Inr w3"
      "trace w3 = trace ?w2 @ (if p \<noteq> nullptr then [Free_called a p] else []) @ [Destroyed a]"
      "store w3 a = None"
    by blast
  have t2: "trace ?w2 = trace w1" by simp
  show ?thesis
    using d t2 s2 c2 w3 by blast
qed

lemma unique_ptr_destroy_empty: "unique_ptr_destroy empty_unique_ptr w = Inr w"
  by (simp add: unique_ptr_destroy_def empty_unique_ptr_def shared_ptr_destroy_def)


text \<open>
  Claim C9. A handle made by \<open>MakeUniquePtr\<close> from a live allocator is either empty
  (the sizing failed), and destroying it does nothing; or its deleter holds a counted
  reference to the allocator. In that case, after every owner the allocator had before
  the call has been destroyed, the allocator is still live with use count 1, and
  destroying the handle succeeds: it calls \<open>Free\<close> on that instance exactly once when
  the wrapped pointer is not null, not at all when it is null, and only then is the
  allocator destroyed.
\<close>

theorem MakeUniquePtr_keeps_allocator_alive:
  assumes live: "store w a = Some cb" and owned: "0 < use_count cb"
    and made: "MakeUniquePtr T (Some a) n w = Inr (h, w1)"
  shows "(get_deleter h = None \<longrightarrow>
            get h = nullptr \<and> w1 = w \<and> (\<forall>w'. unique_ptr_destroy h w' = Inr w'))
     \<and> (get_deleter h \<noteq> None \<longrightarrow>
            get_deleter h = Some a
          \<and> (\<exists>w2 cb2 w3. drop_owners a (use_count cb) w1 = Inr w2 \<and> trace w2 = trace w1
                 \<and> store w2 a = Some cb2 \<and> use_count cb2 = 1
                 \<and> unique_ptr_destroy h w2 = Inr w3
                 \<and> trace w3 = trace w2
                       @ (if get h \<noteq> nullptr then [Free_called a (get h)] else [])
                       @ [Destroyed a]
                 \<and> store w3 a = None))"
proof -
  have e: "get empty_unique_ptr = nullptr" "get_deleter empty_unique_ptr = None"
    by (simp_all add: empty_unique_ptr_def)
  have reached: ?thesis
    if h: "h = \<lparr>get = p, get_deleter = Some a\<rparr>"
      and w1: "w1 = w\<lparr>trace := t, store := (store w)(a \<mapsto> cb\<lparr>object := ob, use_count := use_count cb + 1\<rparr>)\<rparr>"
    for p t ob
  proof -
    let ?cb1 = "cb\<lparr>object := ob, use_count := use_count cb + 1\<rparr>"
    have s: "store w1 a = Some ?cb1" by (simp add: w1)
    have c: "use_count ?cb1 = use_count cb + 1" by simp
    from release_after_drop [OF s c, of p]
    show ?thesis by (simp add: h split del: if_split cong: if_cong)
  qed
  show ?thesis
  proof (cases T)
    case Void
    let ?r = "Alloc (object cb) n (private_data (object cb))"
    have "h = \<lparr>get = fst ?r, get_deleter = Some a\<rparr>"
      and "w1 = w\<lparr>trace := trace w @ [Alloc_called a n],
                  store := (store w)(a \<mapsto> cb\<lparr>object := (object cb)\<lparr>private_data := snd ?r\<rparr>,
                                               use_count := use_count cb + 1\<rparr>)\<rparr>"
      using made Void MakeUniquePtr_Void [OF live, of n] by simp_all
    then show ?thesis by (rule reached)
  next
    case (Object sz)
    show ?thesis
    proof (cases "unat n * unat sz \<le> unat size_t_max")
      case True
      let ?r = "Alloc (object cb) (sz * n) (private_data (object cb))"
      have "h = \<lparr>get = fst ?r, get_deleter = Some a\<rparr>"
        and "w1 = w\<lparr>trace := trace w @ [Alloc_called a (sz * n)],
                    store := (store w)(a \<mapsto> cb\<lparr>object := (object cb)\<lparr>private_data := snd ?r\<rparr>,
                                                 use_count := use_count cb + 1\<rparr>)\<rparr>"
        using made Object True MakeUniquePtr_Object [OF live owned, of sz n] by simp_all
      then show ?thesis by (rule reached)
    next
      case False
      with made Object MakeUniquePtr_Object [OF live owned, of sz n]
      have "h = empty_unique_ptr" "w1 = w" by simp_all
      then show ?thesis by (simp add: e unique_ptr_destroy_empty)
    qed
  qed
qed

theorem MakeUniquePtr_keeps_allocator_alive_witness:
  "\<exists>h w1 w2 w3.
      MakeUniquePtr (Object 4) (Some 7) 4 (bump_world 2) = Inr (h, w1)
    \<and> get h = 4096
    \<and> drop_owners 7 2 w1 = Inr w2
    \<and> store w2 7 \<noteq> None
    \<and> unique_ptr_destroy h w2 = Inr w3
    \<and> trace w3 = [Alloc_called 7 16, Free_called 7 4096, Destroyed 7]
    \<and> store w3 7 = None"
proof -
  let ?cb = "\<lparr>use_count = 2, object = bump_allocator\<rparr>"
  have s: "store (bump_world 2) 7 = Some ?cb" by (rule bump_world_store)
  have o: "0 < use_count ?cb" by simp
  have t: "trace (bump_world 2) = []" by (simp add: bump_world_def)
  have "\<exists>w1. MakeUniquePtr (Object 4) (Some 7) 4 (bump_world 2)
            = Inr (\<lparr>get = 4096, get_deleter = Some 7\<rparr>, w1) \<and> trace w1 = [Alloc_called 7 16]"
    using MakeUniquePtr_Object [OF s o, of 4 4] by (simp add: unat_size_t_max bump_Alloc t)
  then obtain w1 where
    made: "MakeUniquePtr (Object 4) (Some 7) 4 (bump_world 2)
            = Inr (\<lparr>get = 4096, get_deleter = Some 7\<rparr>, w1)"
    and t1: "trace w1 = [Alloc_called 7 16]"
    by blast
  let ?h = "\<lparr>get = 4096, get_deleter = Some 7\<rparr>"
  have g: "get ?h = 4096" "get ?h \<noteq> nullptr" "get_deleter ?h \<noteq> None"
    by (simp_all add: nullptr_def)
  from MakeUniquePtr_keeps_allocator_alive [OF s o made] g
  obtain w2 cb2 w3 where
    r: "drop_owners 7 (use_count ?cb) w1 = Inr w2" "trace w2 = trace w1"
       "store w2 7 = Some cb2" "unique_ptr_destroy ?h w2 = Inr w3"
       "trace w3 = trace w2 @ [Free_called 7 (get ?h)] @ [Destroyed 7]" "store w3 7 = None"
    by auto
  have "drop_owners 7 2 w1 = Inr w2" using r(1) by simp
  moreover have "trace w3 = [Alloc_called 7 16, Free_called 7 4096, Destroyed 7]"
    using r(2,5) t1 by simp
  moreover have "store w2 7 \<noteq> None" using r(3) by simp
  ultimately show ?thesis using made g(1) r(4,6) by blast
qed

end
